theory Spec2Isabelle
  imports Main
begin

section \<open>Python strings and the values of the \<open>json\<close> module\<close>

text \<open>
  A Python \<open>str\<close> is a sequence of Unicode code points (0 to 0x10FFFF, lone surrogates
  included), so it is modelled as a list of naturals; \<open>valid_str\<close> is the range
  condition every Python string meets. \<open>str\<close> turns an ASCII literal into such a list.
\<close>

type_synonym pystr = "nat list"

abbreviation ord :: "char \<Rightarrow> nat" where
  "ord c \<equiv> of_char c"

definition str :: "string \<Rightarrow> pystr" where
  "str s = map ord s"

definition valid_str :: "pystr \<Rightarrow> bool" where
  "valid_str s = list_all (\<lambda>c. c < 0x110000) s"

text \<open>
  The objects \<open>json.loads\<close> builds and \<open>json.dumps\<close> prints: \<open>None\<close>, \<open>bool\<close>,
  \<open>int\<close>, \<open>float\<close>, \<open>str\<close>, \<open>list\<close> and \<open>dict\<close> (insertion-ordered, keys unique, all
  keys strings). IEEE arithmetic is not modelled: a float is carried as the text Python's
  \<open>repr\<close> prints for it, and the conversion from a JSON number literal to that text is a
  parameter \<open>fr\<close> of the decoder.
\<close>

datatype json =
    PyNone
  | PyBool bool
  | PyInt int
  | PyFloat pystr
  | PyStr pystr
  | PyList "json list"
  | PyDict "(pystr \<times> json) list"

text \<open>\<open>d[k] = v\<close> on an insertion-ordered dictionary, and \<open>dict(pairs)\<close>.\<close>

fun setitem :: "pystr \<Rightarrow> json \<Rightarrow> (pystr \<times> json) list \<Rightarrow> (pystr \<times> json) list" where
  "setitem k v [] = [(k, v)]"
| "setitem k v ((k', v') # d) = (if k = k' then (k, v) # d else (k', v') # setitem k v d)"

definition py_dict :: "(pystr \<times> json) list \<Rightarrow> (pystr \<times> json) list" where
  "py_dict pairs = foldl (\<lambda>d kv. setitem (fst kv) (snd kv) d) [] pairs"

text \<open>\<open>d.get(k)\<close> and \<open>k in d\<close>.\<close>

definition getitem :: "(pystr \<times> json) list \<Rightarrow> pystr \<Rightarrow> json option" where
  "getitem d k = map_of d k"

definition has_key :: "(pystr \<times> json) list \<Rightarrow> pystr \<Rightarrow> bool" where
  "has_key d k = (k \<in> set (map fst d))"

section \<open>\<open>json.dumps\<close> with its defaults (\<open>ensure_ascii=True\<close>, separators \<open>', '\<close> and \<open>': '\<close>)\<close>

definition hexdigit :: "nat \<Rightarrow> nat" where
  "hexdigit d = (if d < 10 then ord CHR ''0'' + d else ord CHR ''a'' + (d - 10))"

text \<open>\<open>'{0:04x}'.format(n)\<close> for \<open>n < 0x10000\<close>.\<close>

definition hex4 :: "nat \<Rightarrow> pystr" where
  "hex4 n = [hexdigit (n div 4096 mod 16), hexdigit (n div 256 mod 16),
             hexdigit (n div 16 mod 16), hexdigit (n mod 16)]"

text \<open>
  The replacement \<open>py_encode_basestring_ascii\<close> makes for one code point: printable ASCII
  other than the quote and the backslash is kept, the short escapes of \<open>ESCAPE_DCT\<close> are
  used where they exist, anything else becomes \<open>\uXXXX\<close>, and a code point beyond the
  basic plane becomes a UTF-16 surrogate pair of two such escapes.
\<close>

definition escape_char :: "nat \<Rightarrow> pystr" where
  "escape_char c =
    (if 0x20 \<le> c \<and> c \<le> 0x7E \<and> c \<noteq> 0x5C \<and> c \<noteq> 0x22 then [c]
     else if c = 0x5C then [0x5C, 0x5C]
     else if c = 0x22 then [0x5C, 0x22]
     else if c = 0x08 then [0x5C, ord CHR ''b'']
     else if c = 0x0C then [0x5C, ord CHR ''f'']
     else if c = 0x0A then [0x5C, ord CHR ''n'']
     else if c = 0x0D then [0x5C, ord CHR ''r'']
     else if c = 0x09 then [0x5C, ord CHR ''t'']
     else if c < 0x10000 then [0x5C, ord CHR ''u''] @ hex4 c
     else (let n = c - 0x10000;
               s1 = 0xD800 + (n div 1024) mod 1024;
               s2 = 0xDC00 + n mod 1024
           in [0x5C, ord CHR ''u''] @ hex4 s1 @ [0x5C, ord CHR ''u''] @ hex4 s2))"

definition encode_basestring_ascii :: "pystr \<Rightarrow> pystr" where
  "encode_basestring_ascii s = [0x22] @ concat (map escape_char s) @ [0x22]"

text \<open>\<open>str(n)\<close> for an integer, and \<open>', '.join\<close>.\<close>

fun nat_digits :: "nat \<Rightarrow> pystr" where
  "nat_digits n = (if n < 10 then [ord CHR ''0'' + n]
                   else nat_digits (n div 10) @ [ord CHR ''0'' + n mod 10])"

definition int_str :: "int \<Rightarrow> pystr" where
  "int_str i = (if i < 0 then ord CHR ''-'' # nat_digits (nat (- i)) else nat_digits (nat i))"

fun join :: "pystr \<Rightarrow> pystr list \<Rightarrow> pystr" where
  "join sep [] = []"
| "join sep [x] = x"
| "join sep (x # y # xs) = x @ sep @ join sep (y # xs)"

text \<open>
  The encoder prints \<open>float.__repr__\<close>, except for the three constants, which it writes
  in their JavaScript spelling.
\<close>

definition floatstr :: "pystr \<Rightarrow> pystr" where
  "floatstr r =
    (if r = str ''nan'' then str ''NaN''
     else if r = str ''inf'' then str ''Infinity''
     else if r = str ''-inf'' then str ''-Infinity''
     else r)"

fun json_dumps :: "json \<Rightarrow> pystr" where
  "json_dumps PyNone = str ''null''"
| "json_dumps (PyBool b) = (if b then str ''true'' else str ''false'')"
| "json_dumps (PyInt i) = int_str i"
| "json_dumps (PyFloat r) = floatstr r"
| "json_dumps (PyStr s) = encode_basestring_ascii s"
| "json_dumps (PyList xs) = str ''['' @ join (str '', '') (map json_dumps xs) @ str '']''"
| "json_dumps (PyDict kvs) =
     str ''{'' @
     join (str '', '')
       (map (\<lambda>kv. encode_basestring_ascii (fst kv) @ str '': '' @ json_dumps (snd kv)) kvs) @
     str ''}''"

section \<open>\<open>json.loads\<close>\<close>

subsection \<open>Strings\<close>

text \<open>The table \<open>BACKSLASH\<close> of the decoder.\<close>

definition BACKSLASH :: "nat \<Rightarrow> nat option" where
  "BACKSLASH esc =
    (if esc = 0x22 then Some 0x22
     else if esc = 0x5C then Some 0x5C
     else if esc = ord CHR ''/'' then Some (ord CHR ''/'')
     else if esc = ord CHR ''b'' then Some 0x08
     else if esc = ord CHR ''f'' then Some 0x0C
     else if esc = ord CHR ''n'' then Some 0x0A
     else if esc = ord CHR ''r'' then Some 0x0D
     else if esc = ord CHR ''t'' then Some 0x09
     else None)"

definition hexval :: "nat \<Rightarrow> nat option" where
  "hexval c =
    (if ord CHR ''0'' \<le> c \<and> c \<le> ord CHR ''9'' then Some (c - ord CHR ''0'')
     else if ord CHR ''a'' \<le> c \<and> c \<le> ord CHR ''f'' then Some (c - ord CHR ''a'' + 10)
     else if ord CHR ''A'' \<le> c \<and> c \<le> ord CHR ''F'' then Some (c - ord CHR ''A'' + 10)
     else None)"

text \<open>\<open>_decode_uXXXX\<close>: the four hexadecimal digits that follow the \<open>u\<close>.\<close>

definition decode_uXXXX :: "pystr \<Rightarrow> nat option" where
  "decode_uXXXX s =
    (case s of
       h1 # h2 # h3 # h4 # _ \<Rightarrow>
         (case hexval h1 of None \<Rightarrow> None | Some a \<Rightarrow>
         (case hexval h2 of None \<Rightarrow> None | Some b \<Rightarrow>
         (case hexval h3 of None \<Rightarrow> None | Some c \<Rightarrow>
         (case hexval h4 of None \<Rightarrow> None | Some d \<Rightarrow>
            Some (((a * 16 + b) * 16 + c) * 16 + d)))))
     | _ \<Rightarrow> None)"

text \<open>
  One escape sequence, read from the text after the backslash: the code point it denotes
  and how many characters it takes. A high surrogate followed at once by the escape of a
  low surrogate is joined with it into one code point.
\<close>

definition unescape :: "pystr \<Rightarrow> (nat \<times> nat) option" where
  "unescape s =
    (case s of
       [] \<Rightarrow> None
     | esc # s1 \<Rightarrow>
         if esc \<noteq> ord CHR ''u'' then
           (case BACKSLASH esc of None \<Rightarrow> None | Some c \<Rightarrow> Some (c, 1))
         else
           (case decode_uXXXX s1 of
              None \<Rightarrow> None
            | Some uni \<Rightarrow>
                if 0xD800 \<le> uni \<and> uni \<le> 0xDBFF \<and> take 2 (drop 4 s1) = [0x5C, ord CHR ''u''] then
                  (case decode_uXXXX (drop 6 s1) of
                     None \<Rightarrow> None
                   | Some uni2 \<Rightarrow>
                       if 0xDC00 \<le> uni2 \<and> uni2 \<le> 0xDFFF
                       then Some (0x10000 + ((uni - 0xD800) * 1024 + (uni2 - 0xDC00)), 11)
                       else Some (uni, 5))
                else Some (uni, 5)))"

text \<open>
  \<open>scanstring\<close> (strict mode), from the character after the opening quote: the decoded
  string and the input left after the closing quote. A control character inside the
  string, a bad escape and a missing closing quote are errors.
\<close>

function scanstring :: "pystr \<Rightarrow> (pystr \<times> pystr) option" where
  "scanstring [] = None"
| "scanstring (c # s) =
    (if c = 0x22 then Some ([], s)
     else if c = 0x5C then
       (case unescape s of
          None \<Rightarrow> None
        | Some (ch, k) \<Rightarrow>
            (case scanstring (drop k s) of
               None \<Rightarrow> None
             | Some (chunks, rest) \<Rightarrow> Some (ch # chunks, rest)))
     else if c < 0x20 then None
     else
       (case scanstring s of
          None \<Rightarrow> None
        | Some (chunks, rest) \<Rightarrow> Some (c # chunks, rest)))"
  by pat_completeness auto
termination
  by (relation "measure length") auto

subsection \<open>Surrogates\<close>

text \<open>
  The two halves of a UTF-16 surrogate pair. The decoder joins a high surrogate that is
  followed at once by a low one; \<open>join_surrogates\<close> is that joining on a string, and
  \<open>no_surrogate_pair\<close> says that a string holds no such adjacent pair (every string of
  Unicode scalar values is one).
\<close>

definition is_high :: "nat \<Rightarrow> bool" where
  "is_high c = (0xD800 \<le> c \<and> c \<le> 0xDBFF)"

definition is_low :: "nat \<Rightarrow> bool" where
  "is_low c = (0xDC00 \<le> c \<and> c \<le> 0xDFFF)"


fun join_surrogates :: "pystr \<Rightarrow> pystr" where
  "join_surrogates (a # b # s) =
    (if is_high a \<and> is_low b
     then (0x10000 + ((a - 0xD800) * 1024 + (b - 0xDC00))) # join_surrogates s
     else a # join_surrogates (b # s))"
| "join_surrogates [] = []"
| "join_surrogates [a] = [a]"

fun no_surrogate_pair :: "pystr \<Rightarrow> bool" where
  "no_surrogate_pair (a # b # s) = (\<not> (is_high a \<and> is_low b) \<and> no_surrogate_pair (b # s))"
| "no_surrogate_pair [] = True"
| "no_surrogate_pair [a] = True"

text \<open>
  \<open>low_escape_follows t\<close>: the text \<open>t\<close> starts with a \<open>\u\<close> escape that the decoder would
  take as the second half of a pair (or would reject); \<open>cons_char\<close> puts one more code
  point in front of the result of \<open>scanstring\<close>.
\<close>

definition low_escape_follows :: "pystr \<Rightarrow> bool" where
  "low_escape_follows t =
    (take 2 t = [0x5C, 117] \<and>
     (case decode_uXXXX (drop 2 t) of None \<Rightarrow> True | Some m \<Rightarrow> is_low m))"

definition cons_char :: "nat \<Rightarrow> (pystr \<times> pystr) option \<Rightarrow> (pystr \<times> pystr) option" where
  "cons_char c res = (case res of None \<Rightarrow> None | Some (chunks, rest) \<Rightarrow> Some (c # chunks, rest))"

subsection \<open>Numbers\<close>

definition is_digit :: "nat \<Rightarrow> bool" where
  "is_digit c = (ord CHR ''0'' \<le> c \<and> c \<le> ord CHR ''9'')"

text \<open>
  \<open>NUMBER_RE\<close>, \<open>(-?(?:0|[1-9]\d*))(\.\d+)?([eE][-+]?\d+)?\<close>, matched at the head of the
  input: the three groups (an absent group is empty) and the input after the match.
\<close>

definition match_frac :: "pystr \<Rightarrow> pystr \<times> pystr" where
  "match_frac s =
    (case s of
       c # r \<Rightarrow>
         if c = ord CHR ''.'' \<and> takeWhile is_digit r \<noteq> []
         then (c # takeWhile is_digit r, dropWhile is_digit r)
         else ([], s)
     | [] \<Rightarrow> ([], s))"

definition match_exp :: "pystr \<Rightarrow> pystr \<times> pystr" where
  "match_exp s =
    (case s of
       c # r \<Rightarrow>
         if c = ord CHR ''e'' \<or> c = ord CHR ''E'' then
           (let sgn = (case r of x # _ \<Rightarrow> if x = ord CHR ''-'' \<or> x = ord CHR ''+'' then [x] else []
                       | [] \<Rightarrow> []);
                r1 = drop (length sgn) r
            in if takeWhile is_digit r1 \<noteq> []
               then (c # sgn @ takeWhile is_digit r1, dropWhile is_digit r1)
               else ([], s))
         else ([], s)
     | [] \<Rightarrow> ([], s))"

definition match_number :: "pystr \<Rightarrow> (pystr \<times> pystr \<times> pystr \<times> pystr) option" where
  "match_number s =
    (let sgn = (case s of c # _ \<Rightarrow> if c = ord CHR ''-'' then [c] else [] | [] \<Rightarrow> []);
         s1 = drop (length sgn) s
     in case s1 of
          [] \<Rightarrow> None
        | d # r \<Rightarrow>
            if \<not> is_digit d then None
            else
              (let ds = (if d = ord CHR ''0'' then [] else takeWhile is_digit r);
                   r1 = drop (length ds) r;
                   fr = match_frac r1;
                   ex = match_exp (snd fr)
               in Some (sgn @ d # ds, fst fr, fst ex, snd ex)))"

text \<open>\<open>int(integer)\<close> on the first group of a match.\<close>

definition digits_value :: "pystr \<Rightarrow> nat" where
  "digits_value ds = foldl (\<lambda>acc c. 10 * acc + (c - ord CHR ''0'')) 0 ds"

definition py_int :: "pystr \<Rightarrow> int" where
  "py_int s =
    (case s of
       c # r \<Rightarrow> if c = ord CHR ''-'' then - int (digits_value r) else int (digits_value s)
     | [] \<Rightarrow> 0)"

subsection \<open>Values\<close>

definition skip_ws :: "pystr \<Rightarrow> pystr" where
  "skip_ws s = dropWhile (\<lambda>c. c = 0x20 \<or> c = 0x09 \<or> c = 0x0A \<or> c = 0x0D) s"

text \<open>
  The scanner recurses through arrays and objects; the recursion is bounded by a fuel
  argument that every call decreases. \<open>Parsed v r\<close> is a value and the input after it,
  \<open>DecodeError\<close> is the decoder's \<open>JSONDecodeError\<close> (or the \<open>StopIteration\<close> that becomes
  one), and \<open>OutOfFuel\<close> is the bound being hit, which \<open>json_loads\<close> below never does
  (lemma \<open>json_loads_fuel\<close>).
\<close>

datatype parsed = Parsed json pystr | DecodeError | OutOfFuel

text \<open>
  \<open>scan_once\<close> reads one value at the head of the input. \<open>JSONArray\<close> is the loop of the
  array parser, entered at the first element with the elements read so far;
  \<open>JSONObject\<close> is the loop of the object parser, entered after the opening quote of a
  key with the pairs read so far.
\<close>

fun scan_once :: "(pystr \<Rightarrow> pystr) \<Rightarrow> nat \<Rightarrow> pystr \<Rightarrow> parsed"
and JSONArray :: "(pystr \<Rightarrow> pystr) \<Rightarrow> nat \<Rightarrow> json list \<Rightarrow> pystr \<Rightarrow> parsed"
and JSONObject :: "(pystr \<Rightarrow> pystr) \<Rightarrow> nat \<Rightarrow> (pystr \<times> json) list \<Rightarrow> pystr \<Rightarrow> parsed"
where
  "scan_once fr 0 s = OutOfFuel"
| "scan_once fr (Suc n) s =
    (case s of
       [] \<Rightarrow> DecodeError
     | nextchar # rest \<Rightarrow>
         if nextchar = 0x22 then
           (case scanstring rest of
              None \<Rightarrow> DecodeError
            | Some (x, r) \<Rightarrow> Parsed (PyStr x) r)
         else if nextchar = ord CHR ''{'' then
           (case skip_ws rest of
              [] \<Rightarrow> DecodeError
            | c # r \<Rightarrow>
                if c = ord CHR ''}'' then Parsed (PyDict []) r
                else if c = 0x22 then JSONObject fr n [] r
                else DecodeError)
         else if nextchar = ord CHR ''['' then
           (case skip_ws rest of
              [] \<Rightarrow> DecodeError
            | c # r \<Rightarrow>
                if c = ord CHR '']'' then Parsed (PyList []) r
                else JSONArray fr n [] (c # r))
         else if nextchar = ord CHR ''n'' \<and> take 4 s = str ''null'' then
           Parsed PyNone (drop 4 s)
         else if nextchar = ord CHR ''t'' \<and> take 4 s = str ''true'' then
           Parsed (PyBool True) (drop 4 s)
         else if nextchar = ord CHR ''f'' \<and> take 5 s = str ''false'' then
           Parsed (PyBool False) (drop 5 s)
         else
           (case match_number s of
              Some (integer, frac, exp, r) \<Rightarrow>
                if frac \<noteq> [] \<or> exp \<noteq> []
                then Parsed (PyFloat (fr (integer @ frac @ exp))) r
                else Parsed (PyInt (py_int integer)) r
            | None \<Rightarrow>
                if nextchar = ord CHR ''N'' \<and> take 3 s = str ''NaN'' then
                  Parsed (PyFloat (str ''nan'')) (drop 3 s)
                else if nextchar = ord CHR ''I'' \<and> take 8 s = str ''Infinity'' then
                  Parsed (PyFloat (str ''inf'')) (drop 8 s)
                else if nextchar = ord CHR ''-'' \<and> take 9 s = str ''-Infinity'' then
                  Parsed (PyFloat (str ''-inf'')) (drop 9 s)
                else DecodeError))"
| "JSONArray fr 0 values s = OutOfFuel"
| "JSONArray fr (Suc n) values s =
    (case scan_once fr n s of
       DecodeError \<Rightarrow> DecodeError
     | OutOfFuel \<Rightarrow> OutOfFuel
     | Parsed v r \<Rightarrow>
         (case skip_ws r of
            [] \<Rightarrow> DecodeError
          | nextchar # r1 \<Rightarrow>
              if nextchar = ord CHR '']'' then Parsed (PyList (values @ [v])) r1
              else if nextchar \<noteq> ord CHR '','' then DecodeError
              else JSONArray fr n (values @ [v]) (skip_ws r1)))"
| "JSONObject fr 0 pairs s = OutOfFuel"
| "JSONObject fr (Suc n) pairs s =
    (case scanstring s of
       None \<Rightarrow> DecodeError
     | Some (key, r) \<Rightarrow>
         (case skip_ws r of
            [] \<Rightarrow> DecodeError
          | colon # r1 \<Rightarrow>
              if colon \<noteq> ord CHR '':'' then DecodeError
              else
                (case scan_once fr n (skip_ws r1) of
                   DecodeError \<Rightarrow> DecodeError
                 | OutOfFuel \<Rightarrow> OutOfFuel
                 | Parsed v r2 \<Rightarrow>
                     (case skip_ws r2 of
                        [] \<Rightarrow> DecodeError
                      | nextchar # r3 \<Rightarrow>
                          if nextchar = ord CHR ''}'' then
                            Parsed (PyDict (py_dict (pairs @ [(key, v)]))) r3
                          else if nextchar \<noteq> ord CHR '','' then DecodeError
                          else
                            (case skip_ws r3 of
                               [] \<Rightarrow> DecodeError
                             | q # r4 \<Rightarrow>
                                 if q \<noteq> 0x22 then DecodeError
                                 else JSONObject fr n (pairs @ [(key, v)]) r4)))))"

text \<open>
  \<open>json.loads\<close> on a \<open>str\<close>: a leading byte-order mark is refused, white space is
  skipped on both sides of the one value, and anything left over is an error. \<open>None\<close>
  stands for \<open>json.JSONDecodeError\<close>.
\<close>

definition json_loads :: "(pystr \<Rightarrow> pystr) \<Rightarrow> pystr \<Rightarrow> json option" where
  "json_loads fr s =
    (if take 1 s = [0xFEFF] then None
     else
       (case scan_once fr (2 * length s + 1) (skip_ws s) of
          Parsed obj r \<Rightarrow> if skip_ws r = [] then Some obj else None
        | DecodeError \<Rightarrow> None
        | OutOfFuel \<Rightarrow> None))"

section \<open>The operators and the \<open>pydantic\<close> (version 1) validation the module relies on\<close>

text \<open>
  The exceptions that can leave the module: its own \<open>CredentialsNotParseable\<close> with its
  message, \<open>pydantic.ValidationError\<close> (always caught and translated), and Python's
  \<open>TypeError\<close>, which nothing in the module catches.
\<close>

datatype error = CredentialsNotParseable string | ValidationError | TypeError

text \<open>
  \<open>k in x\<close>: key membership on a dictionary, element membership on a list, substring
  test on a string, and \<open>TypeError\<close> on \<open>None\<close>, a Boolean or a number.
\<close>

fun is_substring :: "pystr \<Rightarrow> pystr \<Rightarrow> bool" where
  "is_substring k [] = (k = [])"
| "is_substring k (c # s) = (take (length k) (c # s) = k \<or> is_substring k s)"

fun py_in :: "pystr \<Rightarrow> json \<Rightarrow> error + bool" where
  "py_in k (PyDict d) = Inr (has_key d k)"
| "py_in k (PyList xs) = Inr (PyStr k \<in> set xs)"
| "py_in k (PyStr s) = Inr (is_substring k s)"
| "py_in k PyNone = Inl TypeError"
| "py_in k (PyBool b) = Inl TypeError"
| "py_in k (PyInt i) = Inl TypeError"
| "py_in k (PyFloat r) = Inl TypeError"

text \<open>
  The validator of a \<open>str\<close> field: a string is kept, a number (a Boolean is one) is
  converted with \<open>str\<close>, anything else is a validation error.
\<close>

fun str_validator :: "json \<Rightarrow> error + pystr" where
  "str_validator (PyStr s) = Inr s"
| "str_validator (PyBool b) = Inr (if b then str ''True'' else str ''False'')"
| "str_validator (PyInt i) = Inr (int_str i)"
| "str_validator (PyFloat r) = Inr r"
| "str_validator PyNone = Inl ValidationError"
| "str_validator (PyList xs) = Inl ValidationError"
| "str_validator (PyDict d) = Inl ValidationError"

text \<open>The validator of a \<open>Literal[tag]\<close> field.\<close>

definition literal_validator :: "pystr \<Rightarrow> json \<Rightarrow> error + pystr" where
  "literal_validator tag v = (if v = PyStr tag then Inr tag else Inl ValidationError)"

text \<open>
  A field read by its alias from the keyword arguments: a required field must be present,
  a field with a default takes the default, unvalidated, when it is absent. Keys that
  name no field are ignored.
\<close>

definition required_field ::
  "(json \<Rightarrow> error + 'a) \<Rightarrow> (pystr \<times> json) list \<Rightarrow> pystr \<Rightarrow> error + 'a" where
  "required_field validator data alias =
    (case getitem data alias of None \<Rightarrow> Inl ValidationError | Some x \<Rightarrow> validator x)"

definition default_field ::
  "'a \<Rightarrow> (json \<Rightarrow> error + 'a) \<Rightarrow> (pystr \<times> json) list \<Rightarrow> pystr \<Rightarrow> error + 'a" where
  "default_field dflt validator data alias =
    (case getitem data alias of None \<Rightarrow> Inr dflt | Some x \<Rightarrow> validator x)"

section \<open>The module \<open>craft_store.creds\<close>\<close>

subsection \<open>\<open>CandidModel\<close>\<close>

record CandidModel =
  token_type :: pystr
  "value" :: pystr

text \<open>\<open>CandidModel(**data)\<close> on a dictionary: every field is validated; one failure fails.\<close>

definition CandidModel_init :: "(pystr \<times> json) list \<Rightarrow> error + CandidModel" where
  "CandidModel_init data =
    (case default_field (str ''macaroon'') (literal_validator (str ''macaroon'')) data (str ''t'') of
       Inl e \<Rightarrow> Inl ValidationError
     | Inr t \<Rightarrow>
         (case required_field str_validator data (str ''v'') of
            Inl e \<Rightarrow> Inl ValidationError
          | Inr v \<Rightarrow> Inr \<lparr>token_type = t, value = v\<rparr>))"

text \<open>\<open>CandidModel.marshal\<close>: \<open>self.dict(by_alias=True)\<close>.\<close>

definition CandidModel_marshal :: "CandidModel \<Rightarrow> json" where
  "CandidModel_marshal m =
    PyDict [(str ''t'', PyStr (token_type m)), (str ''v'', PyStr (value m))]"

text \<open>
  \<open>CandidModel.unmarshal\<close>: \<open>cls(**data)\<close>. Unpacking anything but a mapping with
  \<open>**\<close> is a \<open>TypeError\<close>.
\<close>

fun CandidModel_unmarshal :: "json \<Rightarrow> error + CandidModel" where
  "CandidModel_unmarshal (PyDict data) = CandidModel_init data"
| "CandidModel_unmarshal data = Inl TypeError"

text \<open>
  \<open>marshal_candid_credentials\<close>. \<open>CandidModel(v=candid_creds)\<close> validates a value that
  is a string already, so it builds the model with the default tag.
\<close>

definition marshal_candid_credentials :: "pystr \<Rightarrow> pystr" where
  "marshal_candid_credentials candid_creds =
    json_dumps (CandidModel_marshal \<lparr>token_type = str ''macaroon'', value = candid_creds\<rparr>)"

text \<open>
  \<open>unmarshal_candid_credentials\<close>: \<open>data\<close> starts as the empty dictionary; the stored
  text is decoded, and either the decoded object or the stored text under the key \<open>v\<close>
  goes to the model. Only \<open>JSONDecodeError\<close> and \<open>ValidationError\<close> are caught.
\<close>

definition unmarshal_candid_credentials :: "(pystr \<Rightarrow> pystr) \<Rightarrow> pystr \<Rightarrow> error + pystr" where
  "unmarshal_candid_credentials fr marshalled_creds =
    (case
       (case json_loads fr marshalled_creds of
          None \<Rightarrow> Inr (PyDict (setitem (str ''v'') (PyStr marshalled_creds) []))
        | Some creds \<Rightarrow>
            (case py_in (str ''t'') creds of
               Inl e \<Rightarrow> Inl e
             | Inr True \<Rightarrow> Inr creds
             | Inr False \<Rightarrow> Inr (PyDict (setitem (str ''v'') (PyStr marshalled_creds) []))))
     of
       Inl e \<Rightarrow> Inl e
     | Inr data \<Rightarrow>
         (case CandidModel_unmarshal data of
            Inr m \<Rightarrow> Inr (CandidModel.value m)
          | Inl ValidationError \<Rightarrow> Inl (CredentialsNotParseable ''Expected valid Candid credentials'')
          | Inl e \<Rightarrow> Inl e))"

subsection \<open>\<open>UbuntuOneMacaroons\<close>\<close>

text \<open>
  An instance is its instance dictionary. Validation fills the two fields \<open>root\<close> and
  \<open>discharge\<close>. \<open>copy(update=...)\<close> merges its argument into a copy of that dictionary
  without validation and without resolving aliases, so an update under the key \<open>d\<close>
  adds an entry \<open>d\<close> beside the two fields: \<open>attr_d\<close> is that entry, absent after
  validation.
\<close>

record UbuntuOneMacaroons =
  root :: pystr
  discharge :: pystr
  attr_d :: "pystr option"

definition UbuntuOneMacaroons_init :: "(pystr \<times> json) list \<Rightarrow> error + UbuntuOneMacaroons" where
  "UbuntuOneMacaroons_init data =
    (case required_field str_validator data (str ''r'') of
       Inl e \<Rightarrow> Inl ValidationError
     | Inr r \<Rightarrow>
         (case required_field str_validator data (str ''d'') of
            Inl e \<Rightarrow> Inl ValidationError
          | Inr dis \<Rightarrow> Inr \<lparr>root = r, discharge = dis, attr_d = None\<rparr>))"

text \<open>\<open>with_discharge\<close>: \<open>self.copy(update={"d": discharge})\<close>.\<close>

definition with_discharge :: "UbuntuOneMacaroons \<Rightarrow> pystr \<Rightarrow> UbuntuOneMacaroons" where
  "with_discharge self dis = self\<lparr>attr_d := Some dis\<rparr>"

text \<open>
  \<open>dict(by_alias=True)\<close> of an instance walks the instance dictionary in order, naming
  a field by its alias and any other entry by its own key, and collects the pairs into a
  dictionary, where a later pair replaces the value of an earlier one with the same key.
\<close>

definition UbuntuOneMacaroons_dict :: "UbuntuOneMacaroons \<Rightarrow> (pystr \<times> json) list" where
  "UbuntuOneMacaroons_dict self =
    py_dict ([(str ''r'', PyStr (root self)), (str ''d'', PyStr (discharge self))] @
             (case attr_d self of None \<Rightarrow> [] | Some x \<Rightarrow> [(str ''d'', PyStr x)]))"

text \<open>
  The validator of a field whose type is the model: a dictionary is unpacked into the
  constructor; any other value goes through \<open>dict(value)\<close> first, which accepts an
  iterable of two-element iterables, and the constructor then needs every key to be a
  string. \<open>pair_of\<close> is one element of such an iterable read as a key and a value.
\<close>

fun pair_of :: "json \<Rightarrow> (json \<times> json) option" where
  "pair_of (PyList [k, v]) = Some (k, v)"
| "pair_of (PyStr [a, b]) = Some (PyStr [a], PyStr [b])"
| "pair_of (PyDict [(k1, v1), (k2, v2)]) = Some (PyStr k1, PyStr k2)"
| "pair_of x = None"

fun str_key :: "(json \<times> json) option \<Rightarrow> (pystr \<times> json) option" where
  "str_key (Some (PyStr k, v)) = Some (k, v)"
| "str_key x = None"

fun dict_of :: "json \<Rightarrow> (pystr \<times> json) list option" where
  "dict_of (PyDict data) = Some data"
| "dict_of (PyList xs) =
     (if list_all (\<lambda>x. str_key (pair_of x) \<noteq> None) xs
      then Some (py_dict (map (\<lambda>x. the (str_key (pair_of x))) xs))
      else None)"
| "dict_of (PyStr s) = (if s = [] then Some [] else None)"
| "dict_of x = None"

definition UbuntuOneMacaroons_validate :: "json \<Rightarrow> error + UbuntuOneMacaroons" where
  "UbuntuOneMacaroons_validate v =
    (case dict_of v of
       None \<Rightarrow> Inl ValidationError
     | Some data \<Rightarrow> UbuntuOneMacaroons_init data)"

subsection \<open>\<open>UbuntuOneModel\<close>\<close>

record UbuntuOneModel =
  token_type :: pystr
  "value" :: UbuntuOneMacaroons

definition UbuntuOneModel_init :: "(pystr \<times> json) list \<Rightarrow> error + UbuntuOneModel" where
  "UbuntuOneModel_init data =
    (case default_field (str ''u1-macaroon'') (literal_validator (str ''u1-macaroon'')) data (str ''t'') of
       Inl e \<Rightarrow> Inl ValidationError
     | Inr t \<Rightarrow>
         (case required_field UbuntuOneMacaroons_validate data (str ''v'') of
            Inl e \<Rightarrow> Inl ValidationError
          | Inr v \<Rightarrow> Inr \<lparr>token_type = t, value = v\<rparr>))"

definition UbuntuOneModel_marshal :: "UbuntuOneModel \<Rightarrow> json" where
  "UbuntuOneModel_marshal m =
    PyDict [(str ''t'', PyStr (token_type m)),
            (str ''v'', PyDict (UbuntuOneMacaroons_dict (value m)))]"

fun UbuntuOneModel_unmarshal :: "json \<Rightarrow> error + UbuntuOneModel" where
  "UbuntuOneModel_unmarshal (PyDict data) = UbuntuOneModel_init data"
| "UbuntuOneModel_unmarshal data = Inl TypeError"

text \<open>
  \<open>marshal_u1_credentials\<close>. \<open>UbuntuOneModel(v=u1_creds)\<close> is given an instance of the
  field's model, which validation keeps with its instance dictionary as it is.
\<close>

definition marshal_u1_credentials :: "UbuntuOneMacaroons \<Rightarrow> pystr" where
  "marshal_u1_credentials u1_creds =
    json_dumps (UbuntuOneModel_marshal \<lparr>token_type = str ''u1-macaroon'', value = u1_creds\<rparr>)"

text \<open>
  \<open>unmarshal_u1_credentials\<close>: a decoding failure is translated at once; otherwise the
  decoded object, or the decoded object under the key \<open>v\<close>, goes to the model.
\<close>

definition unmarshal_u1_credentials ::
  "(pystr \<Rightarrow> pystr) \<Rightarrow> pystr \<Rightarrow> error + UbuntuOneMacaroons" where
  "unmarshal_u1_credentials fr marshalled_creds =
    (case json_loads fr marshalled_creds of
       None \<Rightarrow> Inl (CredentialsNotParseable ''Expected valid Ubuntu One credentials'')
     | Some creds \<Rightarrow>
         (case
            (case py_in (str ''t'') creds of
               Inl e \<Rightarrow> Inl e
             | Inr True \<Rightarrow> Inr creds
             | Inr False \<Rightarrow> Inr (PyDict (setitem (str ''v'') creds [])))
          of
            Inl e \<Rightarrow> Inl e
          | Inr data \<Rightarrow>
              (case UbuntuOneModel_unmarshal data of
                 Inr m \<Rightarrow> Inr (value m)
               | Inl ValidationError \<Rightarrow>
                   Inl (CredentialsNotParseable ''Expected valid Ubuntu One credentials'')
               | Inl e \<Rightarrow> Inl e)))"

text \<open>
  What \<open>marshal_u1_credentials\<close> writes as the discharge of a pair: the entry \<open>d\<close> of the
  instance dictionary when there is one, the field otherwise. \<open>valid_macaroons\<close> is the
  range condition of Python strings on what is written.
\<close>

definition marshalled_discharge :: "UbuntuOneMacaroons \<Rightarrow> pystr" where
  "marshalled_discharge p = (case attr_d p of None \<Rightarrow> discharge p | Some x \<Rightarrow> x)"

definition valid_macaroons :: "UbuntuOneMacaroons \<Rightarrow> bool" where
  "valid_macaroons p = (valid_str (root p) \<and> valid_str (marshalled_discharge p))"

text \<open>
  A float formatter to run the decoder with on inputs that hold no float.
\<close>

definition no_float :: "pystr \<Rightarrow> pystr" where
  "no_float lexeme = lexeme"

section \<open>Decoding what the encoder wrote\<close>

subsection \<open>Hexadecimal digits and single escapes\<close>

lemma hexval_hexdigit: "d < 16 \<Longrightarrow> hexval (hexdigit d) = Some d"
  by (simp add: hexval_def hexdigit_def)

lemma hex4_value:
  assumes "(n::nat) < 65536"
  shows "((n div 4096 mod 16 * 16 + n div 256 mod 16) * 16 + n div 16 mod 16) * 16 + n mod 16 = n"
proof -
  have a: "n mod 256 = 16 * (n div 16 mod 16) + n mod 16"
    using mod_mult2_eq [of n 16 16] by simp
  have b: "n mod 4096 = 256 * (n div 256 mod 16) + n mod 256"
    using mod_mult2_eq [of n 256 16] by simp
  have c: "n = 4096 * (n div 4096) + n mod 4096"
    by simp
  have "n div 4096 < 16"
    using assms by (simp add: less_mult_imp_div_less)
  then have d: "n div 4096 mod 16 = n div 4096"
    by simp
  have aux: "\<And>q d2 d1 d0 m1 m2 k :: nat.
      m1 = 16 * d1 + d0 \<Longrightarrow> m2 = 256 * d2 + m1 \<Longrightarrow> k = 4096 * q + m2 \<Longrightarrow>
      ((q * 16 + d2) * 16 + d1) * 16 + d0 = k"
    by simp
  show ?thesis
    by (simp only: d aux [OF a b c])
qed

lemma decode_hex4:
  assumes "n < 65536"
  shows "decode_uXXXX (hex4 n @ rest) = Some n"
proof -
  have "decode_uXXXX (hex4 n @ rest) =
    Some (((n div 4096 mod 16 * 16 + n div 256 mod 16) * 16 + n div 16 mod 16) * 16 + n mod 16)"
    unfolding decode_uXXXX_def hex4_def by (simp only: append_Cons list.case hexval_hexdigit mod_less_divisor zero_less_numeral option.case)
  then show ?thesis
    by (simp only: hex4_value [OF assms])
qed

lemma hex4_length: "length (hex4 n) = 4"
  by (simp add: hex4_def)

lemma unescape_bmp:
  "n < 65536 \<Longrightarrow> \<not> is_high n \<Longrightarrow> unescape (117 # hex4 n @ rest) = Some (n, 5)"
  by (auto simp add: unescape_def decode_hex4 is_high_def)

lemma unescape_pair:
  "is_high n \<Longrightarrow> is_low m \<Longrightarrow>
   unescape (117 # hex4 n @ 92 # 117 # hex4 m @ rest) =
     Some (0x10000 + ((n - 0xD800) * 1024 + (m - 0xDC00)), 11)"
  by (simp add: unescape_def decode_hex4 is_high_def is_low_def hex4_length)

lemma scanstring_backslash:
  "unescape s = Some (ch, k) \<Longrightarrow> scanstring (0x5C # s) = cons_char ch (scanstring (drop k s))"
  by (simp add: cons_char_def)

lemma scanstring_plain:
  "0x20 \<le> c \<Longrightarrow> c \<noteq> 0x22 \<Longrightarrow> c \<noteq> 0x5C \<Longrightarrow> scanstring (c # s) = cons_char c (scanstring s)"
  by (simp add: cons_char_def)

lemma unescape_short:
  "BACKSLASH e = Some c \<Longrightarrow> e \<noteq> 117 \<Longrightarrow> unescape (e # t) = Some (c, 1)"
  by (simp add: unescape_def)

lemma unescape_lone:
  "is_high n \<Longrightarrow> \<not> low_escape_follows t \<Longrightarrow> unescape (117 # hex4 n @ t) = Some (n, 5)"
  by (auto simp add: unescape_def decode_hex4 is_high_def is_low_def low_escape_follows_def
      hex4_length split: option.splits)

lemma surrogate_join:
  assumes "0x10000 \<le> c" "c < 0x110000"
  shows "0x10000 + ((c - 0x10000) div 1024 mod 1024 * 1024 + (c - 0x10000) mod 1024) = (c::nat)"
proof -
  have "(c - 0x10000) div 1024 < 1024"
    using assms by (simp add: less_mult_imp_div_less)
  then have "(c - 0x10000) div 1024 mod 1024 = (c - 0x10000) div 1024"
    by simp
  moreover have "(c - 0x10000) div 1024 * 1024 + (c - 0x10000) mod 1024 = c - 0x10000"
    by simp
  ultimately show ?thesis
    using assms by simp
qed

lemma high_half:
  fixes c :: nat
  defines "s1 \<equiv> 0xD800 + (c - 0x10000) div 1024 mod 1024"
  shows "s1 < 65536" and "is_high s1" and "\<not> is_low s1"
proof -
  have "(c - 0x10000) div 1024 mod 1024 < 1024"
    by (rule mod_less_divisor) simp
  then obtain m where m: "(c - 0x10000) div 1024 mod 1024 = m" "m < 1024"
    by blast
  show "s1 < 65536" and "is_high s1" and "\<not> is_low s1"
    using m(2) by (simp_all add: s1_def m(1) is_high_def is_low_def)
qed

lemma low_half:
  fixes c :: nat
  defines "s2 \<equiv> 0xDC00 + (c - 0x10000) mod 1024"
  shows "is_low s2"
proof -
  have "(c - 0x10000) mod 1024 < 1024"
    by (rule mod_less_divisor) simp
  then obtain m where m: "(c - 0x10000) mod 1024 = m" "m < 1024"
    by blast
  show ?thesis
    using m(2) by (simp add: s2_def m(1) is_low_def)
qed

lemma escape_char_plain:
  "0x20 \<le> c \<Longrightarrow> c \<le> 0x7E \<Longrightarrow> c \<noteq> 0x5C \<Longrightarrow> c \<noteq> 0x22 \<Longrightarrow> escape_char c = [c]"
  by (simp add: escape_char_def)

lemma escape_char_bmp:
  "\<not> (0x20 \<le> c \<and> c \<le> 0x7E) \<Longrightarrow> c \<noteq> 0x08 \<Longrightarrow> c \<noteq> 0x0C \<Longrightarrow> c \<noteq> 0x0A \<Longrightarrow> c \<noteq> 0x0D \<Longrightarrow>
   c \<noteq> 0x09 \<Longrightarrow> c < 0x10000 \<Longrightarrow> escape_char c = 0x5C # 117 # hex4 c"
  by (auto simp add: escape_char_def)

lemma escape_char_astral:
  "0x10000 \<le> c \<Longrightarrow>
   escape_char c = 0x5C # 117 # hex4 (0xD800 + (c - 0x10000) div 1024 mod 1024) @
                   0x5C # 117 # hex4 (0xDC00 + (c - 0x10000) mod 1024)"
  by (simp add: escape_char_def Let_def)

lemma escape_char_short:
  assumes "c = 0x5C \<or> c = 0x22 \<or> c = 0x08 \<or> c = 0x0C \<or> c = 0x0A \<or> c = 0x0D \<or> c = 0x09"
  obtains e where "escape_char c = [0x5C, e]" "e \<noteq> 117"
  using assms by (auto simp add: escape_char_def)

lemma escape_char_classes:
  fixes c :: nat
  obtains (plain) "0x20 \<le> c" "c \<le> 0x7E" "c \<noteq> 0x5C" "c \<noteq> 0x22"
    | (short) "c = 0x5C \<or> c = 0x22 \<or> c = 0x08 \<or> c = 0x0C \<or> c = 0x0A \<or> c = 0x0D \<or> c = 0x09"
    | (bmp) "\<not> (0x20 \<le> c \<and> c \<le> 0x7E)" "c \<noteq> 0x08" "c \<noteq> 0x0C" "c \<noteq> 0x0A" "c \<noteq> 0x0D"
        "c \<noteq> 0x09" "c < 0x10000"
    | (astral) "0x10000 \<le> c"
  by linarith

lemma scanstring_escape_char:
  assumes "c < 0x110000" "\<not> is_high c"
  shows "scanstring (escape_char c @ t) = cons_char c (scanstring t)"
proof (cases c rule: escape_char_classes)
  case plain
  then show ?thesis
    by (simp add: escape_char_plain cons_char_def)
next
  case short
  then show ?thesis
    by (auto simp add: escape_char_def cons_char_def unescape_def BACKSLASH_def)
next
  case bmp
  show ?thesis
    using unescape_bmp [OF bmp(7) assms(2), of t]
    by (simp add: escape_char_bmp [OF bmp] scanstring_backslash hex4_length del: scanstring.simps)
next
  case astral
  define s1 where "s1 = 0xD800 + (c - 0x10000) div 1024 mod 1024"
  define s2 where "s2 = 0xDC00 + (c - 0x10000) mod 1024"
  have e: "escape_char c = 0x5C # 117 # hex4 s1 @ 0x5C # 117 # hex4 s2"
    unfolding s1_def s2_def by (rule escape_char_astral [OF astral])
  have h: "is_high s1" and l: "is_low s2"
    unfolding s1_def s2_def by (rule high_half low_half)+
  have "(c - 0x10000) div 1024 mod 1024 * 1024 + (c - 0x10000) mod 1024 = c - 0x10000"
    using surrogate_join [OF astral assms(1)] astral by linarith
  then have j: "0x10000 + ((s1 - 0xD800) * 1024 + (s2 - 0xDC00)) = c"
    using astral by (simp add: s1_def s2_def)
  show ?thesis
    using unescape_pair [OF h l, of t]
    by (simp add: e j scanstring_backslash hex4_length del: scanstring.simps)
qed

lemma not_low_escape_quote: "\<not> low_escape_follows (0x22 # rest)"
  by (simp add: low_escape_follows_def)

lemma not_low_escape_char:
  assumes "c < 0x110000" "\<not> is_low c"
  shows "\<not> low_escape_follows (escape_char c @ t)"
proof (cases c rule: escape_char_classes)
  case plain
  then show ?thesis
    by (simp add: escape_char_plain low_escape_follows_def)
next
  case short
  then obtain e where "escape_char c = [0x5C, e]" "e \<noteq> 117"
    by (rule escape_char_short)
  then show ?thesis
    by (simp add: low_escape_follows_def)
next
  case bmp
  show ?thesis
    using assms(2)
    by (simp add: escape_char_bmp [OF bmp] low_escape_follows_def decode_hex4 [OF bmp(7)])
next
  case astral
  define s1 where "s1 = 0xD800 + (c - 0x10000) div 1024 mod 1024"
  define s2 where "s2 = 0xDC00 + (c - 0x10000) mod 1024"
  have e: "escape_char c = 0x5C # 117 # hex4 s1 @ 0x5C # 117 # hex4 s2"
    unfolding s1_def s2_def by (rule escape_char_astral [OF astral])
  have b: "s1 < 65536" and l: "\<not> is_low s1"
    unfolding s1_def by (rule high_half)+
  show ?thesis
    using l by (simp add: e low_escape_follows_def decode_hex4 [OF b])
qed

lemma scanstring_lone_high:
  assumes "is_high c" "\<not> low_escape_follows t"
  shows "scanstring (escape_char c @ t) = cons_char c (scanstring t)"
proof -
  have e: "escape_char c = 0x5C # 117 # hex4 c"
    using assms(1) by (simp add: escape_char_def is_high_def)
  show ?thesis
    using unescape_lone [OF assms]
    by (simp add: e scanstring_backslash hex4_length del: scanstring.simps)
qed

lemma scanstring_surrogates:
  assumes "is_high a" "is_low b"
  shows "scanstring (escape_char a @ escape_char b @ t) =
         cons_char (0x10000 + ((a - 0xD800) * 1024 + (b - 0xDC00))) (scanstring t)"
proof -
  have ea: "escape_char a = 0x5C # 117 # hex4 a"
    using assms(1) by (simp add: escape_char_def is_high_def)
  have eb: "escape_char b = 0x5C # 117 # hex4 b"
    using assms(2) by (simp add: escape_char_def is_low_def)
  show ?thesis
    using unescape_pair [OF assms, of t]
    by (simp add: ea eb scanstring_backslash hex4_length del: scanstring.simps)
qed

lemma scanstring_escaped:
  "valid_str v \<Longrightarrow>
   scanstring (concat (map escape_char v) @ 0x22 # rest) = Some (join_surrogates v, rest)"
proof (induction v rule: join_surrogates.induct)
  case (1 a b s)
  have vb: "b < 0x110000" and va: "a < 0x110000" and vs: "valid_str s" "valid_str (b # s)"
    using 1(3) by (simp_all add: valid_str_def)
  define t where "t = concat (map escape_char s) @ 0x22 # rest"
  have goal: "concat (map escape_char (a # b # s)) @ 0x22 # rest = escape_char a @ escape_char b @ t"
    by (simp add: t_def)
  show ?case
  proof (cases "is_high a \<and> is_low b")
    case True
    have ih: "scanstring t = Some (join_surrogates s, rest)"
      unfolding t_def using 1(1) [OF True vs(1)] .
    have "scanstring (escape_char a @ escape_char b @ t) =
          Some ((0x10000 + ((a - 0xD800) * 1024 + (b - 0xDC00))) # join_surrogates s, rest)"
      using True by (simp only: scanstring_surrogates ih cons_char_def option.case prod.case)
    then show ?thesis
      unfolding goal using True by simp
  next
    case False
    have ih: "scanstring (escape_char b @ t) = Some (join_surrogates (b # s), rest)"
      using 1(2) [OF False vs(2)] by (simp add: t_def)
    have step: "scanstring (escape_char a @ escape_char b @ t) =
          cons_char a (scanstring (escape_char b @ t))"
    proof (cases "is_high a")
      case True
      with False have "\<not> is_low b" by simp
      then have "\<not> low_escape_follows (escape_char b @ t)"
        by (rule not_low_escape_char [OF vb])
      then show ?thesis
        by (rule scanstring_lone_high [OF True])
    next
      case nh: False
      show ?thesis
        by (rule scanstring_escape_char [OF va nh])
    qed
    have "scanstring (escape_char a @ escape_char b @ t) = Some (a # join_surrogates (b # s), rest)"
      by (simp only: step ih cons_char_def option.case prod.case)
    then show ?thesis
      unfolding goal using False by auto
  qed
next
  case 2
  show ?case by simp
next
  case (3 a)
  then have va: "a < 0x110000"
    by (simp add: valid_str_def)
  have "scanstring (escape_char a @ 0x22 # rest) = cons_char a (scanstring (0x22 # rest))"
  proof (cases "is_high a")
    case True
    show ?thesis
      by (rule scanstring_lone_high [OF True not_low_escape_quote])
  next
    case False
    show ?thesis
      by (rule scanstring_escape_char [OF va False])
  qed
  then show ?case
    by (simp add: cons_char_def)
qed

lemma join_surrogates_id: "no_surrogate_pair v \<Longrightarrow> join_surrogates v = v"
  by (induction v rule: join_surrogates.induct) auto

subsection \<open>The scanner consumes input and never runs out of fuel\<close>

lemma skip_ws_length: "length (skip_ws s) \<le> length s"
  by (simp add: skip_ws_def length_dropWhile_le)

lemma skip_ws_Cons: "skip_ws s = c # r \<Longrightarrow> length r < length s"
  using skip_ws_length [of s] by simp

lemma scanstring_length: "scanstring s = Some (x, r) \<Longrightarrow> length r < length s"
proof (induction s arbitrary: x rule: scanstring.induct)
  case 1
  then show ?case by simp
next
  case (2 c s)
  show ?case
  proof (cases "c = 0x22")
    case True
    with 2(3) show ?thesis by simp
  next
    case q: False
    show ?thesis
    proof (cases "c = 0x5C")
      case True
      with q 2(3) obtain ch k chunks where u: "unescape s = Some (ch, k)"
        and r: "scanstring (drop k s) = Some (chunks, r)"
        by (auto split: option.splits)
      have "length r < length (drop k s)"
        using 2(1) [OF q True u refl r] .
      then show ?thesis by simp
    next
      case b: False
      with q 2(3) obtain chunks where c: "\<not> c < 0x20" and r: "scanstring s = Some (chunks, r)"
        by (auto split: option.splits if_splits)
      have "length r < length s"
        using 2(2) [OF q b c] r by simp
      then show ?thesis by simp
    qed
  qed
qed

lemma match_frac_length: "length (snd (match_frac s)) \<le> length s"
  by (auto simp add: match_frac_def split: list.splits
      intro: le_trans [OF length_dropWhile_le])

lemma match_exp_length: "length (snd (match_exp s)) \<le> length s"
  by (auto simp add: match_exp_def Let_def split: list.splits
      intro: le_trans [OF length_dropWhile_le])

lemma match_exp_frac_length:
  assumes "match_exp (snd (match_frac x)) = (c, r)"
  shows "length r \<le> length x"
proof -
  have "length (snd (match_exp (snd (match_frac x)))) \<le> length (snd (match_frac x))"
    by (rule match_exp_length)
  also have "\<dots> \<le> length x"
    by (rule match_frac_length)
  finally show ?thesis
    by (simp add: assms)
qed

lemma match_number_length:
  assumes "match_number s = Some (a, b, c, r)"
  shows "length r < length s"
  using assms
  by (auto simp add: match_number_def Let_def split: list.splits if_splits
      dest!: match_exp_frac_length)

lemma skip_ws_less: "length r < length (skip_ws s) \<Longrightarrow> length r < length s"
  using skip_ws_length [of s] by simp

lemma scan_consumes:
  "(\<forall>s v r. scan_once fr n s = Parsed v r \<longrightarrow> length r < length s) \<and>
   (\<forall>vals s v r. JSONArray fr n vals s = Parsed v r \<longrightarrow> length r < length s) \<and>
   (\<forall>ps s v r. JSONObject fr n ps s = Parsed v r \<longrightarrow> length r < length s)"
proof (induction n)
  case 0
  show ?case by simp
next
  case (Suc n)
  have ih_scan: "scan_once fr n s = Parsed v r \<Longrightarrow> length r < length s" for s v r
    using Suc by blast
  have ih_arr: "JSONArray fr n vals s = Parsed v r \<Longrightarrow> length r < length s" for vals s v r
    using Suc by blast
  have ih_obj: "JSONObject fr n ps s = Parsed v r \<Longrightarrow> length r < length s" for ps s v r
    using Suc by blast
  have scan: "length r < length s" if "scan_once fr (Suc n) s = Parsed v r" for s v r
    using that
    by (auto split: list.splits if_splits option.splits
        dest!: scanstring_length skip_ws_Cons ih_arr ih_obj match_number_length)
  have arr: "length r < length s" if "JSONArray fr (Suc n) vals s = Parsed v r" for vals s v r
    using that
    by (auto split: parsed.splits list.splits if_splits
        dest!: ih_scan skip_ws_Cons ih_arr skip_ws_less)
  have obj: "length r < length s" if "JSONObject fr (Suc n) ps s = Parsed v r" for ps s v r
    using that
    by (auto split: parsed.splits list.splits if_splits option.splits
        dest!: ih_scan skip_ws_Cons ih_obj scanstring_length skip_ws_less)
  show ?case
    using scan arr obj by blast
qed


lemma scan_once_consumes: "scan_once fr n s = Parsed v r \<Longrightarrow> length r < length s"
  using scan_consumes [of fr n] by blast

lemma scan_fuel:
  "(\<forall>s. 2 * length s < n \<longrightarrow> scan_once fr n s \<noteq> OutOfFuel) \<and>
   (\<forall>vals s. 2 * length s + 1 < n \<longrightarrow> JSONArray fr n vals s \<noteq> OutOfFuel) \<and>
   (\<forall>ps s. 2 * length s + 3 < n \<longrightarrow> JSONObject fr n ps s \<noteq> OutOfFuel)"
proof (induction n)
  case 0
  show ?case by simp
next
  case (Suc n)
  have ih_scan: "2 * length s < n \<Longrightarrow> scan_once fr n s \<noteq> OutOfFuel" for s
    using Suc by blast
  have ih_arr: "2 * length s + 1 < n \<Longrightarrow> JSONArray fr n vals s \<noteq> OutOfFuel" for vals s
    using Suc by blast
  have ih_obj: "2 * length s + 3 < n \<Longrightarrow> JSONObject fr n ps s \<noteq> OutOfFuel" for ps s
    using Suc by blast
  have scan: "scan_once fr (Suc n) s \<noteq> OutOfFuel" if "2 * length s < Suc n" for s
  proof (cases s)
    case Nil
    then show ?thesis by simp
  next
    case (Cons c rest)
    have a: "JSONArray fr n [] (x # r) \<noteq> OutOfFuel" if "skip_ws rest = x # r" for x r
    proof (rule ih_arr)
      have "length (x # r) \<le> length rest"
        using skip_ws_length [of rest] that by simp
      then show "2 * length (x # r) + 1 < n"
        using \<open>2 * length s < Suc n\<close> Cons by simp
    qed
    have o: "JSONObject fr n [] r \<noteq> OutOfFuel" if "skip_ws rest = x # r" for x r
    proof (rule ih_obj)
      have "length (x # r) \<le> length rest"
        using skip_ws_length [of rest] that by simp
      then show "2 * length r + 3 < n"
        using \<open>2 * length s < Suc n\<close> Cons by simp
    qed
    show ?thesis
      using a o by (auto simp add: Cons split: list.splits option.splits)
  qed
  have arr: "JSONArray fr (Suc n) vals s \<noteq> OutOfFuel" if "2 * length s + 1 < Suc n" for vals s
  proof -
    have 1: "scan_once fr n s \<noteq> OutOfFuel"
      using that by (intro ih_scan) simp
    have 2: "JSONArray fr n (vals @ [v]) (skip_ws r1) \<noteq> OutOfFuel"
      if "scan_once fr n s = Parsed v r" "skip_ws r = x # r1" for v r x r1
    proof (rule ih_arr)
      have "length r < length s"
        using that(1) by (rule scan_once_consumes)
      moreover have "length r1 < length r"
        using that(2) by (rule skip_ws_Cons)
      moreover have "length (skip_ws r1) \<le> length r1"
        by (rule skip_ws_length)
      ultimately show "2 * length (skip_ws r1) + 1 < n"
        using \<open>2 * length s + 1 < Suc n\<close> by linarith
    qed
    show ?thesis
      using 1 2 by (auto split: parsed.splits list.splits)
  qed
  have obj: "JSONObject fr (Suc n) ps s \<noteq> OutOfFuel" if "2 * length s + 3 < Suc n" for ps s
  proof -
    have 1: "scan_once fr n (skip_ws r1) \<noteq> OutOfFuel"
      if "scanstring s = Some (key, r)" "skip_ws r = x # r1" for key r x r1
    proof (rule ih_scan)
      have "length r < length s"
        using that(1) by (rule scanstring_length)
      moreover have "length r1 < length r"
        using that(2) by (rule skip_ws_Cons)
      moreover have "length (skip_ws r1) \<le> length r1"
        by (rule skip_ws_length)
      ultimately show "2 * length (skip_ws r1) < n"
        using \<open>2 * length s + 3 < Suc n\<close> by linarith
    qed
    have 2: "JSONObject fr n ps' r4 \<noteq> OutOfFuel"
      if "scanstring s = Some (key, r)" "skip_ws r = x # r1"
        "scan_once fr n (skip_ws r1) = Parsed v r2" "skip_ws r2 = y # r3" "skip_ws r3 = q # r4"
      for key r x r1 v r2 y r3 q r4 ps'
    proof (rule ih_obj)
      have "length r < length s"
        using that(1) by (rule scanstring_length)
      moreover have "length r1 < length r"
        using that(2) by (rule skip_ws_Cons)
      moreover have "length (skip_ws r1) \<le> length r1"
        by (rule skip_ws_length)
      moreover have "length r2 < length (skip_ws r1)"
        using that(3) by (rule scan_once_consumes)
      moreover have "length r3 < length r2"
        using that(4) by (rule skip_ws_Cons)
      moreover have "length r4 < length r3"
        using that(5) by (rule skip_ws_Cons)
      ultimately show "2 * length r4 + 3 < n"
        using \<open>2 * length s + 3 < Suc n\<close> by linarith
    qed
    show ?thesis
      using 1 2 by (auto split: parsed.splits list.splits option.splits)
  qed
  show ?case
    using scan arr obj by blast
qed

lemma json_loads_fuel: "scan_once fr (2 * length s + 1) (skip_ws s) \<noteq> OutOfFuel"
proof -
  have "2 * length (skip_ws s) < 2 * length s + 1"
    using skip_ws_length [of s] by simp
  then show ?thesis
    using scan_fuel [of "2 * length s + 1" fr] by blast
qed

subsection \<open>The texts the two encoders write, and their decoding\<close>

lemma marshal_candid_text:
  \<open>marshal_candid_credentials v =
     str ''{"t": "macaroon", "v": "'' @ concat (map escape_char v) @ str ''"}''\<close>
  by (simp add: marshal_candid_credentials_def CandidModel_marshal_def
      encode_basestring_ascii_def str_def escape_char_def)

lemma loads_candid:
  assumes "valid_str v"
  shows "json_loads fr (marshal_candid_credentials v) =
     Some (PyDict [(str ''t'', PyStr (str ''macaroon'')), (str ''v'', PyStr (join_surrogates v))])"
  unfolding marshal_candid_text
  by (simp add: json_loads_def str_def skip_ws_def scanstring_escaped [OF assms] py_dict_def)

lemma marshal_u1_text:
  \<open>marshal_u1_credentials p =
     str ''{"t": "u1-macaroon", "v": {"r": "'' @ concat (map escape_char (root p)) @
     str ''", "d": "'' @ concat (map escape_char (marshalled_discharge p)) @ str ''"}}''\<close>
  by (simp add: marshal_u1_credentials_def UbuntuOneModel_marshal_def UbuntuOneMacaroons_dict_def
      marshalled_discharge_def py_dict_def encode_basestring_ascii_def str_def escape_char_def
      split: option.splits)

lemma loads_u1:
  assumes "valid_macaroons p"
  shows "json_loads fr (marshal_u1_credentials p) =
     Some (PyDict [(str ''t'', PyStr (str ''u1-macaroon'')),
                   (str ''v'', PyDict [(str ''r'', PyStr (join_surrogates (root p))),
                                       (str ''d'', PyStr (join_surrogates (marshalled_discharge p)))])])"
proof -
  have r: "valid_str (root p)" and d: "valid_str (marshalled_discharge p)"
    using assms by (simp_all add: valid_macaroons_def)
  show ?thesis
    unfolding marshal_u1_text
    by (simp add: json_loads_def str_def skip_ws_def scanstring_escaped [OF r]
        scanstring_escaped [OF d] py_dict_def)
qed

lemma unmarshal_candid_marshal:
  assumes "valid_str v"
  shows "unmarshal_candid_credentials fr (marshal_candid_credentials v) = Inr (join_surrogates v)"
  by (simp add: unmarshal_candid_credentials_def loads_candid [OF assms] has_key_def str_def
      CandidModel_init_def default_field_def required_field_def getitem_def literal_validator_def)

lemma unmarshal_u1_marshal:
  assumes "valid_macaroons p"
  shows "unmarshal_u1_credentials fr (marshal_u1_credentials p) =
     Inr \<lparr>root = join_surrogates (root p),
          discharge = join_surrogates (marshalled_discharge p), attr_d = None\<rparr>"
  by (simp add: unmarshal_u1_credentials_def loads_u1 [OF assms] has_key_def str_def
      UbuntuOneModel_init_def default_field_def required_field_def getitem_def literal_validator_def
      UbuntuOneMacaroons_validate_def UbuntuOneMacaroons_init_def)

lemma unmarshal_candid_of_u1:
  assumes "valid_macaroons p"
  shows "unmarshal_candid_credentials fr (marshal_u1_credentials p) =
     Inl (CredentialsNotParseable ''Expected valid Candid credentials'')"
  by (simp add: unmarshal_candid_credentials_def loads_u1 [OF assms] has_key_def str_def
      CandidModel_init_def default_field_def required_field_def getitem_def literal_validator_def)

lemma unmarshal_u1_of_candid:
  assumes "valid_str v"
  shows "unmarshal_u1_credentials fr (marshal_candid_credentials v) =
     Inl (CredentialsNotParseable ''Expected valid Ubuntu One credentials'')"
  by (simp add: unmarshal_u1_credentials_def loads_candid [OF assms] has_key_def str_def
      UbuntuOneModel_init_def default_field_def required_field_def getitem_def literal_validator_def)




subsection \<open>Decoding some stored texts\<close>







lemma scan_number_example:
  assumes "1 \<le> n"
  shows "scan_once fr n (str ''123'') = Parsed (PyInt 123) []"
proof -
  obtain m where "n = Suc m"
    using assms by (metis Suc_le_D One_nat_def)
  then show ?thesis
    by (simp add: str_def match_number_def is_digit_def match_frac_def match_exp_def
        py_int_def digits_value_def Let_def)
qed

lemma loads_number_example:
  \<open>json_loads fr (str ''123'') = Some (PyInt 123)\<close>
proof -
  have w: \<open>skip_ws (str ''123'') = str ''123''\<close>
    by (simp add: str_def skip_ws_def)
  have n: \<open>1 \<le> 2 * length (str ''123'') + 1\<close>
    by (simp add: str_def)
  have b: \<open>take 1 (str ''123'') \<noteq> [0xFEFF]\<close>
    by (simp add: str_def)
  show ?thesis
    unfolding json_loads_def w scan_number_example [OF n] using b by (simp add: skip_ws_def)
qed

section \<open>The claims\<close>




text \<open>
  Claim C2, at the pair with root \<open>R\<close> and discharge \<open>D1\<close>. \<open>with_discharge\<close> updates the
  copy under the alias \<open>d\<close>, so the field \<open>discharge\<close> of the result is still \<open>D1\<close>; the
  new value sits in a stray entry \<open>d\<close>, which is what marshalling then writes.
\<close>

theorem with_discharge_at_R_D1_D2:
  \<open>with_discharge \<lparr>root = str ''R'', discharge = str ''D1'', attr_d = None\<rparr> (str ''D2'') =
     \<lparr>root = str ''R'', discharge = str ''D1'', attr_d = Some (str ''D2'')\<rparr> \<and>
   discharge (with_discharge \<lparr>root = str ''R'', discharge = str ''D1'', attr_d = None\<rparr> (str ''D2''))
     \<noteq> str ''D2'' \<and>
   marshal_u1_credentials
     (with_discharge \<lparr>root = str ''R'', discharge = str ''D1'', attr_d = None\<rparr> (str ''D2'')) =
     str ''{"t": "u1-macaroon", "v": {"r": "R", "d": "D2"}}''\<close>
  by (simp add: with_discharge_def marshal_u1_text marshalled_discharge_def)
     (simp add: str_def escape_char_def)

text \<open>
  Claim C3, at the stored text \<open>123\<close>. It decodes to a number, on which \<open>"t" in creds\<close>
  raises \<open>TypeError\<close>; neither function catches it.
\<close>

theorem unmarshal_number_raises_TypeError:
  "unmarshal_candid_credentials no_float (str ''123'') = Inl TypeError \<and>
   unmarshal_u1_credentials no_float (str ''123'') = Inl TypeError"
  by (simp add: unmarshal_candid_credentials_def unmarshal_u1_credentials_def loads_number_example)

text \<open>
  Claim C4, for the strings the decoder reads back unchanged. A Candid credential with
  no high surrogate immediately followed by a low surrogate survives marshalling and
  unmarshalling. (A string with such a pair comes back with the pair joined into one
  code point.)
\<close>

theorem candid_round_trip:
  "valid_str v \<Longrightarrow> no_surrogate_pair v \<Longrightarrow>
   unmarshal_candid_credentials fr (marshal_candid_credentials v) = Inr v"
  by (simp add: unmarshal_candid_marshal join_surrogates_id)

theorem candid_round_trip_witness:
  "valid_str [109, 0x22, 0x0A, 0xE9, 0x1F600] \<and> no_surrogate_pair [109, 0x22, 0x0A, 0xE9, 0x1F600] \<and>
   unmarshal_candid_credentials no_float (marshal_candid_credentials [109, 0x22, 0x0A, 0xE9, 0x1F600]) =
     Inr [109, 0x22, 0x0A, 0xE9, 0x1F600]"
proof -
  have v: "valid_str [109, 0x22, 0x0A, 0xE9, 0x1F600]"
    by (simp add: valid_str_def)
  have n: "no_surrogate_pair [109, 0x22, 0x0A, 0xE9, 0x1F600]"
    by (simp add: is_high_def is_low_def)
  show ?thesis
    using v n candid_round_trip [OF v n] by simp
qed

text \<open>Two lone surrogates, a high one and then a low one, do not come back.\<close>

theorem candid_round_trip_counterexample:
  "unmarshal_candid_credentials no_float (marshal_candid_credentials [0xD83D, 0xDE00]) \<noteq>
     Inr [0xD83D, 0xDE00]"
proof -
  have v: "valid_str [0xD83D, 0xDE00]"
    by (simp add: valid_str_def)
  have "unmarshal_candid_credentials no_float (marshal_candid_credentials [0xD83D, 0xDE00]) =
      Inr (join_surrogates [0xD83D, 0xDE00])"
    by (rule unmarshal_candid_marshal [OF v])
  then show ?thesis
    by (simp add: is_high_def is_low_def)
qed

text \<open>
  Claim C5, for validated pairs of such strings. An Ubuntu One pair without a stray entry
  \<open>d\<close>, whose root and discharge hold no high surrogate immediately followed by a low
  surrogate, survives marshalling and unmarshalling.
\<close>

theorem u1_round_trip:
  "valid_str (root p) \<Longrightarrow> valid_str (discharge p) \<Longrightarrow> attr_d p = None \<Longrightarrow>
   no_surrogate_pair (root p) \<Longrightarrow> no_surrogate_pair (discharge p) \<Longrightarrow>
   unmarshal_u1_credentials fr (marshal_u1_credentials p) = Inr p"
proof -
  assume a: "valid_str (root p)" "valid_str (discharge p)" "attr_d p = None"
    "no_surrogate_pair (root p)" "no_surrogate_pair (discharge p)"
  have d: "marshalled_discharge p = discharge p"
    using a(3) by (simp add: marshalled_discharge_def)
  have "valid_macaroons p"
    using a(1,2) by (simp add: valid_macaroons_def d)
  then show ?thesis
    using a(3,4,5) by (simp add: unmarshal_u1_marshal d join_surrogates_id)
qed

theorem u1_round_trip_witness:
  "valid_str (root \<lparr>root = [82, 0x1F600], discharge = [68, 0x22, 49], attr_d = None\<rparr>) \<and>
   valid_str (discharge \<lparr>root = [82, 0x1F600], discharge = [68, 0x22, 49], attr_d = None\<rparr>) \<and>
   attr_d \<lparr>root = [82, 0x1F600], discharge = [68, 0x22, 49], attr_d = None\<rparr> = None \<and>
   no_surrogate_pair (root \<lparr>root = [82, 0x1F600], discharge = [68, 0x22, 49], attr_d = None\<rparr>) \<and>
   no_surrogate_pair (discharge \<lparr>root = [82, 0x1F600], discharge = [68, 0x22, 49], attr_d = None\<rparr>) \<and>
   unmarshal_u1_credentials no_float
     (marshal_u1_credentials \<lparr>root = [82, 0x1F600], discharge = [68, 0x22, 49], attr_d = None\<rparr>) =
     Inr \<lparr>root = [82, 0x1F600], discharge = [68, 0x22, 49], attr_d = None\<rparr>"
proof -
  let ?p = "\<lparr>root = [82, 0x1F600], discharge = [68, 0x22, 49], attr_d = None\<rparr>"
  have 1: "valid_str (root ?p)" and 2: "valid_str (discharge ?p)"
    by (simp_all add: valid_str_def)
  have 3: "attr_d ?p = None"
    by simp
  have 4: "no_surrogate_pair (root ?p)" and 5: "no_surrogate_pair (discharge ?p)"
    by (simp_all add: is_high_def is_low_def)
  show ?thesis
    using 1 2 4 5 u1_round_trip [OF 1 2 3 4 5] by simp
qed

text \<open>The same two code points as the root of a pair.\<close>

theorem u1_round_trip_counterexample:
  "unmarshal_u1_credentials no_float
     (marshal_u1_credentials \<lparr>root = [0xD83D, 0xDE00], discharge = [100], attr_d = None\<rparr>) \<noteq>
     Inr \<lparr>root = [0xD83D, 0xDE00], discharge = [100], attr_d = None\<rparr>"
proof -
  let ?p = "\<lparr>root = [0xD83D, 0xDE00], discharge = [100], attr_d = None\<rparr>"
  have v: "valid_macaroons ?p"
    by (simp add: valid_macaroons_def marshalled_discharge_def valid_str_def)
  have "unmarshal_u1_credentials no_float (marshal_u1_credentials ?p) =
      Inr \<lparr>root = join_surrogates (root ?p),
           discharge = join_surrogates (marshalled_discharge ?p), attr_d = None\<rparr>"
    by (rule unmarshal_u1_marshal [OF v])
  then show ?thesis
    by (simp add: is_high_def is_low_def)
qed

text \<open>
  Claim C6. What \<open>marshal_u1_credentials\<close> writes is refused by
  \<open>unmarshal_candid_credentials\<close> with \<open>CredentialsNotParseable\<close> and the message that
  names Candid credentials.
\<close>

theorem u1_text_rejected_by_candid:
  "valid_macaroons p \<Longrightarrow>
   unmarshal_candid_credentials fr (marshal_u1_credentials p) =
     Inl (CredentialsNotParseable ''Expected valid Candid credentials'')"
  by (rule unmarshal_candid_of_u1)

theorem u1_text_rejected_by_candid_witness:
  "valid_macaroons \<lparr>root = [114], discharge = [100], attr_d = None\<rparr> \<and>
   unmarshal_candid_credentials no_float
     (marshal_u1_credentials \<lparr>root = [114], discharge = [100], attr_d = None\<rparr>) =
     Inl (CredentialsNotParseable ''Expected valid Candid credentials'')"
proof -
  have v: "valid_macaroons \<lparr>root = [114], discharge = [100], attr_d = None\<rparr>"
    by (simp add: valid_macaroons_def marshalled_discharge_def valid_str_def)
  show ?thesis
    using v u1_text_rejected_by_candid [OF v] by simp
qed





text \<open>
  Claim C9. \<open>marshal_candid_credentials\<close> of \<open>m\<close> writes the object with \<open>t\<close> first and
  \<open>v\<close> second (with a space after the colon and after the comma, and nothing else
  besides), that text decodes to the same object, and unmarshalling it gives \<open>m\<close> back.
\<close>

theorem candid_marshal_m:
  \<open>marshal_candid_credentials (str ''m'') = str ''{"t": "macaroon", "v": "m"}'' \<and>
   filter (\<lambda>c. c \<noteq> 0x20) (marshal_candid_credentials (str ''m'')) =
     str ''{"t":"macaroon","v":"m"}'' \<and>
   json_loads fr (marshal_candid_credentials (str ''m'')) =
     Some (PyDict [(str ''t'', PyStr (str ''macaroon'')), (str ''v'', PyStr (str ''m''))]) \<and>
   unmarshal_candid_credentials fr (marshal_candid_credentials (str ''m'')) = Inr (str ''m'')\<close>
proof -
  have v: "valid_str (str ''m'')"
    by (simp add: valid_str_def str_def)
  have j: "join_surrogates (str ''m'') = str ''m''"
    by (simp add: str_def)
  have t: \<open>marshal_candid_credentials (str ''m'') = str ''{"t": "macaroon", "v": "m"}''\<close>
    by (simp add: marshal_candid_text) (simp add: str_def escape_char_def)
  have f: \<open>filter (\<lambda>c. c \<noteq> 0x20) (str ''{"t": "macaroon", "v": "m"}'') =
      str ''{"t":"macaroon","v":"m"}''\<close>
    by (simp add: str_def)
  show ?thesis
    using loads_candid [OF v, of fr] unmarshal_candid_marshal [OF v, of fr]
    by (simp only: t f j simp_thms)
qed

theorem candid_marshal_m_witness:
  \<open>marshal_candid_credentials (str ''m'') = str ''{"t": "macaroon", "v": "m"}'' \<and>
   unmarshal_candid_credentials no_float (marshal_candid_credentials (str ''m'')) = Inr (str ''m'')\<close>
  using candid_marshal_m [of no_float] by blast

text \<open>
  Claim C10. What \<open>marshal_candid_credentials\<close> writes is refused by
  \<open>unmarshal_u1_credentials\<close> with \<open>CredentialsNotParseable\<close>.
\<close>

theorem candid_text_rejected_by_u1:
  "valid_str v \<Longrightarrow>
   unmarshal_u1_credentials fr (marshal_candid_credentials v) =
     Inl (CredentialsNotParseable ''Expected valid Ubuntu One credentials'')"
  by (rule unmarshal_u1_of_candid)

theorem candid_text_rejected_by_u1_witness:
  "valid_str (str ''m'') \<and>
   unmarshal_u1_credentials no_float (marshal_candid_credentials (str ''m'')) =
     Inl (CredentialsNotParseable ''Expected valid Ubuntu One credentials'')"
proof -
  have v: "valid_str (str ''m'')"
    by (simp add: valid_str_def str_def)
  show ?thesis
    using v candid_text_rejected_by_u1 [OF v] by simp
qed

end
